theory Spec2Isabelle
  imports Main "HOL-Library.Product_Lexorder"
begin

section \<open>Security log analyzer: the classification engine of log_analyzer.py\<close>

text \<open>
  Python strings are modelled as \<^typ>\<open>string\<close>, one \<^typ>\<open>char\<close> per code point, for
  code points below 256. Python integers are \<^typ>\<open>int\<close>. The object \<open>self\<close> is a
  record that every method takes and returns.
\<close>

subsection \<open>Regular expressions of the \<open>re\<close> module\<close>

text \<open>
  The character classes the five patterns use. On code points below 256, \<open>\s\<close> is
  what \<open>str.isspace\<close> accepts (9 to 13, 28 to 32, 133 and 160), \<open>\d\<close> is 0 to 9, and
  \<open>.\<close> is every character except the line feed.
\<close>

datatype cclass = Digit | Space | NonSpace | Dot

definition is_space :: "char \<Rightarrow> bool" where
  "is_space c = (of_char c \<in> {9, 10, 11, 12, 13, 28, 29, 30, 31, 32, 133, 160 :: nat})"

definition is_digit :: "char \<Rightarrow> bool" where
  "is_digit c = (48 \<le> (of_char c :: nat) \<and> (of_char c :: nat) \<le> 57)"

fun in_class :: "cclass \<Rightarrow> char \<Rightarrow> bool" where
  "in_class Digit c = is_digit c"
| "in_class Space c = is_space c"
| "in_class NonSpace c = (\<not> is_space c)"
| "in_class Dot c = (c \<noteq> CHR 0x0A)"

text \<open>
  A pattern is the list of its items, read left to right: \<open>Bol\<close> is \<open>^\<close>, \<open>Eol\<close> is
  \<open>$\<close>, \<open>Lit\<close> a run of literal characters, \<open>Rep c n\<close> is \<open>c{n}\<close>, \<open>Plus c\<close> is \<open>c+\<close>,
  \<open>Star c\<close> is \<open>c*\<close>, \<open>Alts\<close> an alternation of literals \<open>a|b|c\<close>, and \<open>Open n\<close>,
  \<open>Close n\<close> are the parentheses of capture group \<open>n\<close>.
\<close>

datatype item = Bol | Eol | Lit string | Rep cclass nat | Plus cclass | Star cclass
  | Alts "string list" | Open nat | Close nat

fun isize :: "item \<Rightarrow> nat" where
  "isize (Alts ls) = Suc (length ls)"
| "isize (Rep c n) = Suc n"
| "isize _ = 1"

text \<open>
  The backtracking matcher: \<open>rmatch r p s\<close> matches the items \<open>r\<close> against the rest \<open>s\<close>
  of the subject, \<open>p\<close> characters into it, and returns the text each item consumed.
  Quantifiers are greedy: they take one more character first and give it back only
  when the rest of the pattern fails. Alternatives are tried in the order written.
  \<open>$\<close> matches at the end of the subject and before a line feed that ends it.
\<close>

function (sequential) rmatch :: "item list \<Rightarrow> nat \<Rightarrow> string \<Rightarrow> string list option" where
  "rmatch [] p s = Some []"
| "rmatch (Bol # r) p s = (if p = 0 then map_option (Cons []) (rmatch r p s) else None)"
| "rmatch (Eol # r) p s =
     (if s = [] \<or> s = [CHR 0x0A] then map_option (Cons []) (rmatch r p s) else None)"
| "rmatch (Open n # r) p s = map_option (Cons []) (rmatch r p s)"
| "rmatch (Close n # r) p s = map_option (Cons []) (rmatch r p s)"
| "rmatch (Lit l # r) p s =
     (if take (length l) s = l
      then map_option (Cons l) (rmatch r (p + length l) (drop (length l) s))
      else None)"
| "rmatch (Rep c n # r) p [] = (if n = 0 then map_option (Cons []) (rmatch r p []) else None)"
| "rmatch (Rep c n # r) p (x # xs) =
     (if n = 0 then map_option (Cons []) (rmatch r p (x # xs))
      else if in_class c x
      then (case rmatch (Rep c (n - 1) # r) (Suc p) xs of
              Some (t # ts) \<Rightarrow> Some ((x # t) # ts)
            | _ \<Rightarrow> None)
      else None)"
| "rmatch (Plus c # r) p [] = None"
| "rmatch (Plus c # r) p (x # xs) =
     (if in_class c x
      then (case rmatch (Star c # r) (Suc p) xs of
              Some (t # ts) \<Rightarrow> Some ((x # t) # ts)
            | _ \<Rightarrow> None)
      else None)"
| "rmatch (Star c # r) p [] = map_option (Cons []) (rmatch r p [])"
| "rmatch (Star c # r) p (x # xs) =
     (if in_class c x
      then (case rmatch (Star c # r) (Suc p) xs of
              Some (t # ts) \<Rightarrow> Some ((x # t) # ts)
            | _ \<Rightarrow> map_option (Cons []) (rmatch r p (x # xs)))
      else map_option (Cons []) (rmatch r p (x # xs)))"
| "rmatch (Alts [] # r) p s = None"
| "rmatch (Alts (l # ls) # r) p s =
     (case (if take (length l) s = l
            then rmatch r (p + length l) (drop (length l) s)
            else None) of
        Some ts \<Rightarrow> Some (l # ts)
      | None \<Rightarrow> rmatch (Alts ls # r) p s)"
  by pat_completeness auto
termination
  by (relation "measures [\<lambda>(r, p, s). length s, \<lambda>(r, p, s). sum_list (map isize r)]") auto

text \<open>The text of capture group \<open>n\<close>: what the items between its parentheses consumed.\<close>

fun inner :: "nat \<Rightarrow> item list \<Rightarrow> string list \<Rightarrow> string" where
  "inner n (Close m # r) (t # ts) = (if m = n then [] else inner n r ts)"
| "inner n (i # r) (t # ts) = t @ inner n r ts"
| "inner n r ts = []"

fun grp :: "nat \<Rightarrow> item list \<Rightarrow> string list \<Rightarrow> string" where
  "grp n (Open m # r) (t # ts) = (if m = n then inner n r ts else grp n r ts)"
| "grp n (i # r) (t # ts) = grp n r ts"
| "grp n r ts = []"

text \<open>
  \<open>re.match(pattern, line)\<close>: a match anchored at the start of the line. The result is
  \<open>None\<close> or the match object, here the function \<open>match.group\<close>.
\<close>

definition re_match :: "item list \<Rightarrow> string \<Rightarrow> (nat \<Rightarrow> string) option" where
  "re_match r s = map_option (\<lambda>segs n. grp n r segs) (rmatch r 0 s)"

subsection \<open>The five patterns\<close>

definition command_regex :: "item list" where
  "command_regex =
    [Bol, Open 1, Plus NonSpace, Close 1, Plus Space, Open 2, Plus Digit, Close 2, Plus Space,
     Open 3, Rep Digit 2, Lit '':'', Rep Digit 2, Lit '':'', Rep Digit 2, Close 3, Plus Space,
     Lit ''server'', Plus Space,
     Lit ''sudo['', Open 4, Plus Digit, Close 4, Lit '']:'', Plus Space,
     Open 5, Plus NonSpace, Close 5, Plus Space, Lit '':'', Plus Space,
     Lit ''TTY=pts/'', Plus Digit, Plus Space, Lit '';'', Plus Space,
     Lit ''PWD='', Plus NonSpace, Plus Space, Lit '';'', Plus Space,
     Lit ''USER='', Plus NonSpace, Plus Space, Lit '';'', Plus Space,
     Lit ''COMMAND='', Open 6, Plus Dot, Close 6, Eol]"

definition user_regex :: "item list" where
  "user_regex =
    [Bol, Open 1, Plus NonSpace, Close 1, Plus Space, Open 2, Plus Digit, Close 2, Plus Space,
     Open 3, Rep Digit 2, Lit '':'', Rep Digit 2, Lit '':'', Rep Digit 2, Close 3, Plus Space,
     Lit ''server'', Plus Space,
     Open 4, Alts [''useradd'', ''userdel'', ''passwd'', ''su'', ''sudo''], Close 4,
     Lit ''['', Open 5, Plus Digit, Close 5, Lit '']:'', Plus Space,
     Open 6, Star Dot, Close 6, Eol]"

definition sudo_command_regex :: "item list" where
  "sudo_command_regex =
    [Bol, Open 1, Plus NonSpace, Close 1, Plus Space, Open 2, Plus Digit, Close 2, Plus Space,
     Open 3, Rep Digit 2, Lit '':'', Rep Digit 2, Lit '':'', Rep Digit 2, Close 3, Plus Space,
     Lit ''server'', Plus Space,
     Lit ''sudo['', Open 4, Plus Digit, Close 4, Lit '']:'', Plus Space,
     Open 5, Plus NonSpace, Close 5, Plus Space, Lit '':'', Plus Space,
     Lit ''TTY=pts/'', Plus Digit, Plus Space, Lit '';'', Plus Space,
     Lit ''PWD='', Plus NonSpace, Plus Space, Lit '';'', Plus Space,
     Lit ''USER=root'', Plus Space, Lit '';'', Plus Space,
     Lit ''COMMAND='', Open 6, Plus Dot, Close 6, Eol]"

definition sudo_failure_regex :: "item list" where
  "sudo_failure_regex =
    [Bol, Open 1, Plus NonSpace, Close 1, Plus Space, Open 2, Plus Digit, Close 2, Plus Space,
     Open 3, Rep Digit 2, Lit '':'', Rep Digit 2, Lit '':'', Rep Digit 2, Close 3, Plus Space,
     Lit ''server'', Plus Space,
     Lit ''sudo['', Open 4, Plus Digit, Close 4, Lit '']:'', Plus Space,
     Lit ''pam_unix(sudo:auth):'', Plus Space, Lit ''authentication'', Plus Space,
     Lit ''failure;'', Plus Space, Lit ''logname='', Plus NonSpace, Plus Space,
     Lit ''uid='', Plus Digit, Plus Space, Lit ''euid='', Plus Digit, Plus Space,
     Lit ''tty='', Plus NonSpace, Plus Space, Lit ''ruser='', Star NonSpace, Plus Space,
     Lit ''rhost='', Plus NonSpace, Plus Space,
     Lit ''user='', Open 5, Plus NonSpace, Close 5, Eol]"

definition hydra_attack_regex :: "item list" where
  "hydra_attack_regex =
    [Bol, Open 1, Plus NonSpace, Close 1, Plus Space, Open 2, Plus Digit, Close 2, Plus Space,
     Open 3, Rep Digit 2, Lit '':'', Rep Digit 2, Lit '':'', Rep Digit 2, Close 3, Plus Space,
     Lit ''server'', Plus Space,
     Lit ''sshd['', Open 4, Plus Digit, Close 4, Lit '']:'', Plus Space,
     Open 5, Alts [''Failed'', ''Accepted''], Close 5, Plus Space,
     Lit ''password'', Plus Space, Lit ''for'', Plus Space,
     Open 6, Plus NonSpace, Close 6, Plus Space, Lit ''from'', Plus Space,
     Open 7, Plus NonSpace, Close 7, Plus Space, Lit ''port'', Plus Space,
     Open 8, Plus Digit, Close 8, Plus Space, Lit ''ssh2'', Eol]"

subsection \<open>Timestamps\<close>

text \<open>
  A \<open>datetime\<close> is its fields (year, month, day, hour, minute, second); Python compares
  two of them field by field in this order, which is the lexicographic order of the
  tuple.
\<close>

type_synonym datetime = "nat \<times> nat \<times> nat \<times> nat \<times> nat \<times> nat"

definition digit_char :: "nat \<Rightarrow> char" where
  "digit_char d = char_of (48 + d)"

function str_nat :: "nat \<Rightarrow> string" where
  "str_nat n = (if n < 10 then [digit_char n] else str_nat (n div 10) @ [digit_char (n mod 10)])"
  by pat_completeness auto
termination
  by (relation "measure id") auto

definition zfill :: "nat \<Rightarrow> string \<Rightarrow> string" where
  "zfill w s = replicate (w - length s) (CHR ''0'') @ s"

text \<open>\<open>str(timestamp)\<close>, as the f-strings render it: \<open>YYYY-MM-DD HH:MM:SS\<close>.\<close>

fun str_datetime :: "datetime \<Rightarrow> string" where
  "str_datetime (y, mo, d, h, mi, s) =
     zfill 4 (str_nat y) @ ''-'' @ zfill 2 (str_nat mo) @ ''-'' @ zfill 2 (str_nat d) @ '' '' @
     zfill 2 (str_nat h) @ '':'' @ zfill 2 (str_nat mi) @ '':'' @ zfill 2 (str_nat s)"

definition int_of_digits :: "string \<Rightarrow> nat" where
  "int_of_digits s = foldl (\<lambda>a c. 10 * a + (of_char c - 48)) 0 s"

definition lower :: "char \<Rightarrow> char" where
  "lower c = (if 65 \<le> (of_char c :: nat) \<and> (of_char c :: nat) \<le> 90
              then char_of (of_char c + 32 :: nat) else c)"

definition month_names :: "string list" where
  "month_names = [''jan'', ''feb'', ''mar'', ''apr'', ''may'', ''jun'',
                  ''jul'', ''aug'', ''sep'', ''oct'', ''nov'', ''dec'']"

fun index_of :: "'a \<Rightarrow> 'a list \<Rightarrow> nat option" where
  "index_of x [] = None"
| "index_of x (y # ys) = (if x = y then Some 0 else map_option Suc (index_of x ys))"

definition is_leap :: "nat \<Rightarrow> bool" where
  "is_leap y = (y mod 4 = 0 \<and> (y mod 100 \<noteq> 0 \<or> y mod 400 = 0))"

definition days_in_month :: "nat \<Rightarrow> nat \<Rightarrow> nat" where
  "days_in_month y m =
     (if m = 2 then (if is_leap y then 29 else 28)
      else if m \<in> {4, 6, 9, 11} then 30 else 31)"

text \<open>
  The two lines every branch of \<open>parse_line\<close> repeats,
  \<^verbatim>\<open>timestamp_str = f"{self.current_year} {match.group(1)} {match.group(2)} {match.group(3)}"\<close>
  and \<^verbatim>\<open>datetime.strptime(timestamp_str, '%Y %b %d %H:%M:%S')\<close> under
  \<^verbatim>\<open>except ValueError: return None\<close>, on the fields the patterns capture: a
  token without white space, a run of digits, and \<open>dd:dd:dd\<close>. \<open>strptime\<close> is the
  standard library's: \<open>%Y\<close> takes exactly four digits (so the year is 1000 to 9999,
  \<open>str\<close> of an \<open>int\<close> having no leading zero), \<open>%b\<close> an English month
  abbreviation in any letter case, \<open>%d\<close> one or two digits from 1 to 31, \<open>%H\<close>,
  \<open>%M\<close>, \<open>%S\<close> at most 23, 59 and 59 (60 and 61 pass the format but not the
  \<open>datetime\<close> constructor), and the day must exist in the month of that year. Every
  failure is a \<open>ValueError\<close>, here \<open>None\<close>.
\<close>

definition parse_timestamp :: "int \<Rightarrow> string \<Rightarrow> string \<Rightarrow> string \<Rightarrow> datetime option" where
  "parse_timestamp current_year mon day time =
     (if 1000 \<le> current_year \<and> current_year \<le> 9999 \<and>
         day \<noteq> [] \<and> length day \<le> 2 \<and> list_all is_digit day \<and>
         length time = 8 \<and> list_all is_digit (take 2 time) \<and> time ! 2 = CHR '':'' \<and>
         list_all is_digit (take 2 (drop 3 time)) \<and> time ! 5 = CHR '':'' \<and>
         list_all is_digit (drop 6 time)
      then
        (case index_of (map lower mon) month_names of
           None \<Rightarrow> None
         | Some i \<Rightarrow>
             (let y = nat current_year; mo = Suc i; d = int_of_digits day;
                  h = int_of_digits (take 2 time); mi = int_of_digits (take 2 (drop 3 time));
                  s = int_of_digits (drop 6 time)
              in if 1 \<le> d \<and> d \<le> days_in_month y mo \<and> h \<le> 23 \<and> mi \<le> 59 \<and> s \<le> 59
                 then Some (y, mo, d, h, mi, s) else None))
      else None)"

subsection \<open>The analyzer object\<close>

record statistics =
  total_entries :: int
  commands :: int
  user_changes :: int
  sudo_commands :: int
  failed_sudo :: int
  failed_logins :: int
  successful_logins :: int
  potential_attacks :: int

type_synonym entry = "datetime \<times> string"

record log_analyzer =
  current_year :: int
  log_entries :: "entry list"
  stats :: statistics

text \<open>\<open>LogAnalyzer.__init__\<close>, with the year already chosen.\<close>

definition init :: "int \<Rightarrow> log_analyzer" where
  "init year =
     \<lparr>current_year = year, log_entries = [],
      stats = \<lparr>total_entries = 0, commands = 0, user_changes = 0, sudo_commands = 0,
               failed_sudo = 0, failed_logins = 0, successful_logins = 0,
               potential_attacks = 0\<rparr>\<rparr>"

text \<open>\<^verbatim>\<open>self.statistics[key] += 1\<close>, the key given by the update function of its field.\<close>

definition incr :: "((int \<Rightarrow> int) \<Rightarrow> statistics \<Rightarrow> statistics) \<Rightarrow> log_analyzer \<Rightarrow> log_analyzer" where
  "incr key self = self\<lparr>stats := key (\<lambda>n. n + 1) (stats self)\<rparr>"

subsection \<open>\<open>sanitize_ip\<close>\<close>

text \<open>\<open>ip.split('.')\<close>: one part more than there are dots, empty parts included.\<close>

fun split_dot :: "string \<Rightarrow> string list" where
  "split_dot [] = [[]]"
| "split_dot (c # cs) =
     (if c = CHR ''.'' then [] # split_dot cs
      else (case split_dot cs of p # ps \<Rightarrow> (c # p) # ps | [] \<Rightarrow> [[c]]))"

definition sanitize_ip :: "string \<Rightarrow> string" where
  "sanitize_ip ip =
     (let parts = split_dot ip
      in if length parts = 4 then parts ! 0 @ ''.'' @ parts ! 1 @ ''.XXX.XXX''
         else ''XXX.XXX.XXX.XXX'')"

subsection \<open>\<open>parse_line\<close>\<close>

text \<open>
  Each \<open>if match:\<close> block of \<open>parse_line\<close> either returns (an entry or \<open>None\<close>) or
  falls through to the next block, in both cases with the object as it has updated it.
\<close>

datatype outcome = Return "entry option" log_analyzer | Fallthrough log_analyzer

definition nl :: string where
  "nl = [CHR 0x0A]"

definition command_block :: "log_analyzer \<Rightarrow> string \<Rightarrow> outcome" where
  "command_block self line =
     (case re_match command_regex line of
        None \<Rightarrow> Fallthrough self
      | Some m \<Rightarrow>
          (case parse_timestamp (current_year self) (m 1) (m 2) (m 3) of
             None \<Rightarrow> Return None self
           | Some timestamp \<Rightarrow>
               Return
                 (Some (timestamp,
                    ''Command Log - Timestamp: '' @ str_datetime timestamp @ '', User: '' @ m 5 @
                    '', Command: '' @ m 6 @ nl))
                 (incr commands_update self)))"

definition user_block :: "log_analyzer \<Rightarrow> string \<Rightarrow> outcome" where
  "user_block self line =
     (case re_match user_regex line of
        None \<Rightarrow> Fallthrough self
      | Some m \<Rightarrow>
          (case parse_timestamp (current_year self) (m 1) (m 2) (m 3) of
             None \<Rightarrow> Return None self
           | Some timestamp \<Rightarrow>
               (let event = m 4; details = m 6;
                    self1 = incr user_changes_update self
                in if event = ''useradd'' then
                     Return (Some (timestamp,
                       ''User Add - Timestamp: '' @ str_datetime timestamp @
                       '', New user added: '' @ details @ nl)) self1
                   else if event = ''userdel'' then
                     Return (Some (timestamp,
                       ''User Delete - Timestamp: '' @ str_datetime timestamp @
                       '', User removed: '' @ details @ nl)) self1
                   else if event = ''passwd'' then
                     Return (Some (timestamp,
                       ''Password Change - Timestamp: '' @ str_datetime timestamp @
                       '', Password changed: '' @ details @ nl)) self1
                   else if event = ''sudo'' then
                     Return (Some (timestamp,
                       ''ALERT!!!! sudo Command - Timestamp: '' @ str_datetime timestamp @
                       '', User used sudo command: '' @ details @ nl))
                       (incr sudo_commands_update self1)
                   else Fallthrough self1)))"

definition sudo_command_block :: "log_analyzer \<Rightarrow> string \<Rightarrow> outcome" where
  "sudo_command_block self line =
     (case re_match sudo_command_regex line of
        None \<Rightarrow> Fallthrough self
      | Some m \<Rightarrow>
          (case parse_timestamp (current_year self) (m 1) (m 2) (m 3) of
             None \<Rightarrow> Return None self
           | Some timestamp \<Rightarrow>
               Return
                 (Some (timestamp,
                    ''sudo Command - Timestamp: '' @ str_datetime timestamp @ '', User: '' @ m 5 @
                    '', Command: '' @ m 6 @ nl))
                 (incr sudo_commands_update self)))"

definition sudo_failure_block :: "log_analyzer \<Rightarrow> string \<Rightarrow> outcome" where
  "sudo_failure_block self line =
     (case re_match sudo_failure_regex line of
        None \<Rightarrow> Fallthrough self
      | Some m \<Rightarrow>
          (case parse_timestamp (current_year self) (m 1) (m 2) (m 3) of
             None \<Rightarrow> Return None self
           | Some timestamp \<Rightarrow>
               Return
                 (Some (timestamp,
                    ''ALERT! Failed sudo - Timestamp: '' @ str_datetime timestamp @ '', User: '' @
                    m 5 @ '', Command: sudo command failed'' @ nl))
                 (incr potential_attacks_update (incr failed_sudo_update self))))"

definition hydra_block :: "log_analyzer \<Rightarrow> string \<Rightarrow> outcome" where
  "hydra_block self line =
     (case re_match hydra_attack_regex line of
        None \<Rightarrow> Fallthrough self
      | Some m \<Rightarrow>
          (case parse_timestamp (current_year self) (m 1) (m 2) (m 3) of
             None \<Rightarrow> Return None self
           | Some timestamp \<Rightarrow>
               (let status = m 5; target_user = m 6; ip_address = m 7; port = m 8
                in if status = ''Failed'' then
                     Return (Some (timestamp,
                       ''Hydra Attack - Failed login attempt - Timestamp: '' @
                       str_datetime timestamp @ '', User: '' @ target_user @ '', IP: '' @
                       sanitize_ip ip_address @ '', Port: '' @ port @ nl))
                       (incr potential_attacks_update (incr failed_logins_update self))
                   else if status = ''Accepted'' then
                     Return (Some (timestamp,
                       ''Hydra Attack - Successful login - Timestamp: '' @
                       str_datetime timestamp @ '', User: '' @ target_user @ '', IP: '' @
                       sanitize_ip ip_address @ '', Port: '' @ port @ nl))
                       (incr successful_logins_update self)
                   else Fallthrough self)))"

text \<open>The blocks in the order the method has them; the last line is \<open>return None\<close>.\<close>

definition parse_line :: "log_analyzer \<Rightarrow> string \<Rightarrow> entry option \<times> log_analyzer" where
  "parse_line self line =
     (case command_block self line of
        Return e self' \<Rightarrow> (e, self')
      | Fallthrough self1 \<Rightarrow>
     (case user_block self1 line of
        Return e self' \<Rightarrow> (e, self')
      | Fallthrough self2 \<Rightarrow>
     (case sudo_command_block self2 line of
        Return e self' \<Rightarrow> (e, self')
      | Fallthrough self3 \<Rightarrow>
     (case sudo_failure_block self3 line of
        Return e self' \<Rightarrow> (e, self')
      | Fallthrough self4 \<Rightarrow>
     (case hydra_block self4 line of
        Return e self' \<Rightarrow> (e, self')
      | Fallthrough self5 \<Rightarrow> (None, self5))))))"

subsection \<open>\<open>analyze\<close>\<close>

text \<open>\<open>line.strip()\<close>: white space removed at both ends.\<close>

definition strip :: "string \<Rightarrow> string" where
  "strip s = rev (dropWhile is_space (rev (dropWhile is_space s)))"

text \<open>
  One turn of the loop over the lines of the input file: the entry, when there is one,
  is appended and counted.
\<close>

definition analyze_line :: "log_analyzer \<Rightarrow> string \<Rightarrow> log_analyzer" where
  "analyze_line self line =
     (case parse_line self (strip line) of
        (None, self') \<Rightarrow> self'
      | (Some entry, self') \<Rightarrow>
          incr total_entries_update (self'\<lparr>log_entries := log_entries self' @ [entry]\<rparr>))"

text \<open>
  \<open>analyze\<close> on an input file that exists and an output file that can be written,
  \<open>lines\<close> being the lines of the input in order: the loop, then
  \<^verbatim>\<open>self.log_entries.sort(key=lambda x: x[0])\<close> (Python's sort is stable, as
  \<^const>\<open>sort_key\<close> is). The entries section of the report is the messages of the
  sorted entries, one after the other.
\<close>

definition read_lines :: "log_analyzer \<Rightarrow> string list \<Rightarrow> log_analyzer" where
  "read_lines self lines = foldl analyze_line self lines"

definition analyze :: "log_analyzer \<Rightarrow> string list \<Rightarrow> log_analyzer" where
  "analyze self lines =
     (let self' = read_lines self lines
      in self'\<lparr>log_entries := sort_key fst (log_entries self')\<rparr>)"

definition report_entries :: "log_analyzer \<Rightarrow> string list" where
  "report_entries self = map snd (log_entries self)"

subsection \<open>Notions used in the proofs\<close>

text \<open>
  \<open>first_ok r x\<close> holds when a match of the items \<open>r\<close> can begin with the character
  \<open>x\<close> (it may hold for more characters, never for fewer).
\<close>

fun first_ok :: "item list \<Rightarrow> char \<Rightarrow> bool" where
  "first_ok [] x = True"
| "first_ok (Lit l # r) x = (case l of [] \<Rightarrow> first_ok r x | y # _ \<Rightarrow> x = y)"
| "first_ok (Rep c n # r) x = (if n = 0 then first_ok r x else in_class c x)"
| "first_ok (Plus c # r) x = in_class c x"
| "first_ok (Star c # r) x = (in_class c x \<or> first_ok r x)"
| "first_ok (Alts ls # r) x = list_ex (\<lambda>l. case l of [] \<Rightarrow> first_ok r x | y # _ \<Rightarrow> x = y) ls"
| "first_ok (i # r) x = first_ok r x"

text \<open>
  \<open>dmatch\<close> matches a pattern without alternation and without \<open>$\<close> the way \<open>rmatch\<close>
  does, except that a quantifier never gives a character back. It returns the text
  each item consumed, the position reached and the rest of the subject. \<open>det_ok pre t\<close>
  says that in the pattern \<open>pre\<close> followed by \<open>t\<close> no quantifier of \<open>pre\<close> is followed by
  something that could begin with a character of its class, so that giving back never
  helps.
\<close>

fun seg :: "string \<Rightarrow> (string list \<times> nat \<times> string) option \<Rightarrow> (string list \<times> nat \<times> string) option" where
  "seg a None = None"
| "seg a (Some (segs, q, rest)) = Some (a # segs, q, rest)"

fun dmatch :: "item list \<Rightarrow> nat \<Rightarrow> string \<Rightarrow> (string list \<times> nat \<times> string) option" where
  "dmatch [] p s = Some ([], p, s)"
| "dmatch (Bol # r) p s = (if p = 0 then seg [] (dmatch r p s) else None)"
| "dmatch (Open n # r) p s = seg [] (dmatch r p s)"
| "dmatch (Close n # r) p s = seg [] (dmatch r p s)"
| "dmatch (Lit l # r) p s =
     (if take (length l) s = l then seg l (dmatch r (p + length l) (drop (length l) s)) else None)"
| "dmatch (Rep c n # r) p s =
     (if n \<le> length s \<and> list_all (in_class c) (take n s)
      then seg (take n s) (dmatch r (p + n) (drop n s)) else None)"
| "dmatch (Plus c # r) p s =
     (if takeWhile (in_class c) s = [] then None
      else seg (takeWhile (in_class c) s)
             (dmatch r (p + length (takeWhile (in_class c) s)) (dropWhile (in_class c) s)))"
| "dmatch (Star c # r) p s =
     seg (takeWhile (in_class c) s)
       (dmatch r (p + length (takeWhile (in_class c) s)) (dropWhile (in_class c) s))"
| "dmatch (i # r) p s = None"

fun det_ok :: "item list \<Rightarrow> item list \<Rightarrow> bool" where
  "det_ok [] t = True"
| "det_ok (Plus c # r) t = ((\<forall>x. in_class c x \<longrightarrow> \<not> first_ok (r @ t) x) \<and> det_ok r t)"
| "det_ok (Star c # r) t = ((\<forall>x. in_class c x \<longrightarrow> \<not> first_ok (r @ t) x) \<and> det_ok r t)"
| "det_ok (Eol # r) t = False"
| "det_ok (Alts ls # r) t = False"
| "det_ok (i # r) t = det_ok r t"

text \<open>
  The part the five patterns share: the three timestamp fields, the host name
  \<open>server\<close> and the white space after it. \<open>ts_fields\<close> are the three fields as this
  part alone determines them.
\<close>

definition ts_prefix :: "item list" where
  "ts_prefix =
    [Bol, Open 1, Plus NonSpace, Close 1, Plus Space, Open 2, Plus Digit, Close 2, Plus Space,
     Open 3, Rep Digit 2, Lit '':'', Rep Digit 2, Lit '':'', Rep Digit 2, Close 3, Plus Space,
     Lit ''server'', Plus Space]"

definition ts_fields :: "string \<Rightarrow> (string \<times> string \<times> string) option" where
  "ts_fields s =
     (case dmatch ts_prefix 0 s of
        None \<Rightarrow> None
      | Some (segs, q, rest) \<Rightarrow>
          Some (grp 1 ts_prefix segs, grp 2 ts_prefix segs, grp 3 ts_prefix segs))"

definition five_patterns :: "item list set" where
  "five_patterns =
     {command_regex, user_regex, sudo_command_regex, sudo_failure_regex, hydra_attack_regex}"

text \<open>
  What \<open>parse_line\<close> returns when a block with the outcome \<open>out\<close> is the last one that
  runs, and one block followed by the next.
\<close>

fun result_of :: "outcome \<Rightarrow> entry option \<times> log_analyzer" where
  "result_of (Return e self) = (e, self)"
| "result_of (Fallthrough self) = (None, self)"

fun and_then :: "outcome \<Rightarrow> (log_analyzer \<Rightarrow> outcome) \<Rightarrow> outcome" where
  "and_then (Return e self) f = Return e self"
| "and_then (Fallthrough self) f = f self"

fun returns :: "outcome \<Rightarrow> bool" where
  "returns (Return e self) = True"
| "returns (Fallthrough self) = False"

text \<open>The grammars of the specification, numbered 1 to 5, and their blocks.\<close>

definition grammar :: "nat \<Rightarrow> item list" where
  "grammar k =
     (if k = 1 then command_regex else if k = 2 then user_regex
      else if k = 3 then sudo_command_regex else if k = 4 then sudo_failure_regex
      else hydra_attack_regex)"

definition block :: "nat \<Rightarrow> log_analyzer \<Rightarrow> string \<Rightarrow> outcome" where
  "block k =
     (if k = 1 then command_block else if k = 2 then user_block
      else if k = 3 then sudo_command_block else if k = 4 then sudo_failure_block
      else hydra_block)"

text \<open>The seven category counters, in the order of the statistics dictionary.\<close>

definition categories :: "statistics \<Rightarrow> int list" where
  "categories st =
     [commands st, user_changes st, sudo_commands st, failed_sudo st, failed_logins st,
      successful_logins st, potential_attacks st]"

section \<open>Properties\<close>

subsection \<open>\<open>sanitize_ip\<close>\<close>

lemma split_dot_nonempty: "split_dot s \<noteq> []"
  by (induction s) (auto split: list.splits)

lemma split_dot_plain: "CHR ''.'' \<notin> set a \<Longrightarrow> split_dot a = [a]"
  by (induction a) auto

lemma split_dot_append:
  "CHR ''.'' \<notin> set a \<Longrightarrow> split_dot (a @ CHR ''.'' # s) = a # split_dot s"
  by (induction a) auto

lemma split_dot_length: "length (split_dot s) = Suc (count_list s (CHR ''.''))"
  by (induction s) (auto simp: split_dot_nonempty split: list.splits)

lemma split_dot_parts: "p \<in> set (split_dot s) \<Longrightarrow> CHR ''.'' \<notin> set p"
  by (induction s arbitrary: p) (auto split: if_splits list.splits)

lemma sanitize_ip_quad:
  assumes "CHR ''.'' \<notin> set a" "CHR ''.'' \<notin> set b" "CHR ''.'' \<notin> set c" "CHR ''.'' \<notin> set d"
  shows "sanitize_ip (a @ ''.'' @ b @ ''.'' @ c @ ''.'' @ d) = a @ ''.'' @ b @ ''.XXX.XXX''"
  using assms by (simp add: sanitize_ip_def split_dot_append split_dot_plain)

lemma sanitize_ip_other:
  "count_list s (CHR ''.'') \<noteq> 3 \<Longrightarrow> sanitize_ip s = ''XXX.XXX.XXX.XXX''"
  by (simp add: sanitize_ip_def split_dot_length)

lemma split_dot_join:
  "split_dot t = ps \<Longrightarrow> t = concat (map (\<lambda>p. p @ ''.'') (butlast ps)) @ last ps"
proof (induction t arbitrary: ps)
  case Nil
  then show ?case by auto
next
  case (Cons x t)
  then show ?case
    using split_dot_nonempty [of t]
    by (cases "split_dot t") (auto split: if_splits)
qed

lemma split_dot_four:
  assumes "length (split_dot s) = 4"
  shows "\<exists>a b c d. CHR ''.'' \<notin> set a \<and> CHR ''.'' \<notin> set b \<and> CHR ''.'' \<notin> set c \<and>
           CHR ''.'' \<notin> set d \<and> s = a @ ''.'' @ b @ ''.'' @ c @ ''.'' @ d"
proof -
  obtain a b c d where ps: "split_dot s = [a, b, c, d]"
    using assms by (auto simp: length_Suc_conv numeral_eq_Suc)
  have "s = a @ ''.'' @ b @ ''.'' @ c @ ''.'' @ d"
    using split_dot_join [OF ps] by simp
  moreover have "CHR ''.'' \<notin> set a" "CHR ''.'' \<notin> set b" "CHR ''.'' \<notin> set c" "CHR ''.'' \<notin> set d"
    using split_dot_parts [of _ s] ps by auto
  ultimately show ?thesis by blast
qed

text \<open>
  C9. \<open>sanitize_ip\<close> is a total function, so it returns on every string. On a string
  of exactly four dot-separated parts \<open>a.b.c.d\<close> it returns \<open>a.b.XXX.XXX\<close>: the first
  two parts kept, the last two replaced by the mask token. On every other string, that
  is whenever the number of dots is not three, it returns \<open>XXX.XXX.XXX.XXX\<close>. The two
  cases cover every string: one with three dots has four dot-separated parts.
\<close>

theorem sanitize_ip_cases:
  "(CHR ''.'' \<notin> set a \<and> CHR ''.'' \<notin> set b \<and> CHR ''.'' \<notin> set c \<and> CHR ''.'' \<notin> set d \<longrightarrow>
      sanitize_ip (a @ ''.'' @ b @ ''.'' @ c @ ''.'' @ d) = a @ ''.'' @ b @ ''.XXX.XXX'') \<and>
   (count_list s (CHR ''.'') \<noteq> 3 \<longrightarrow> sanitize_ip s = ''XXX.XXX.XXX.XXX'') \<and>
   (count_list s (CHR ''.'') = 3 \<longrightarrow>
      (\<exists>a b c d. CHR ''.'' \<notin> set a \<and> CHR ''.'' \<notin> set b \<and> CHR ''.'' \<notin> set c \<and>
         CHR ''.'' \<notin> set d \<and> s = a @ ''.'' @ b @ ''.'' @ c @ ''.'' @ d))"
proof (intro conjI impI)
  assume "CHR ''.'' \<notin> set a \<and> CHR ''.'' \<notin> set b \<and> CHR ''.'' \<notin> set c \<and> CHR ''.'' \<notin> set d"
  then show "sanitize_ip (a @ ''.'' @ b @ ''.'' @ c @ ''.'' @ d) = a @ ''.'' @ b @ ''.XXX.XXX''"
    using sanitize_ip_quad [of a b c d] by blast
next
  assume "count_list s (CHR ''.'') \<noteq> 3"
  then show "sanitize_ip s = ''XXX.XXX.XXX.XXX''"
    by (rule sanitize_ip_other)
next
  assume "count_list s (CHR ''.'') = 3"
  then have "length (split_dot s) = 4"
    by (simp add: split_dot_length)
  then show "\<exists>a b c d. CHR ''.'' \<notin> set a \<and> CHR ''.'' \<notin> set b \<and> CHR ''.'' \<notin> set c \<and>
         CHR ''.'' \<notin> set d \<and> s = a @ ''.'' @ b @ ''.'' @ c @ ''.'' @ d"
    by (rule split_dot_four)
qed

theorem sanitize_ip_cases_witness:
  "sanitize_ip ''203.0.113.50'' = ''203.0.XXX.XXX'' \<and>
   sanitize_ip ''10.0.0'' = ''XXX.XXX.XXX.XXX'' \<and>
   (\<exists>a b c d. CHR ''.'' \<notin> set a \<and> CHR ''.'' \<notin> set b \<and> CHR ''.'' \<notin> set c \<and>
      CHR ''.'' \<notin> set d \<and> ''203.0.113.50'' = a @ ''.'' @ b @ ''.'' @ c @ ''.'' @ d)"
proof -
  have "sanitize_ip (''203'' @ ''.'' @ ''0'' @ ''.'' @ ''113'' @ ''.'' @ ''50'') =
        ''203'' @ ''.'' @ ''0'' @ ''.XXX.XXX''"
    using sanitize_ip_cases [of "''203''" "''0''" "''113''" "''50''" "[]"] by simp
  moreover have "sanitize_ip ''10.0.0'' = ''XXX.XXX.XXX.XXX''"
    using sanitize_ip_cases [of "[]" "[]" "[]" "[]" "''10.0.0''"] by simp
  moreover have "\<exists>a b c d. CHR ''.'' \<notin> set a \<and> CHR ''.'' \<notin> set b \<and> CHR ''.'' \<notin> set c \<and>
      CHR ''.'' \<notin> set d \<and> ''203.0.113.50'' = a @ ''.'' @ b @ ''.'' @ c @ ''.'' @ d"
    using sanitize_ip_cases [of "[]" "[]" "[]" "[]" "''203.0.113.50''"] by simp
  ultimately show ?thesis by simp
qed

text \<open>
  C8. \<open>sanitize_ip\<close> is idempotent: sanitizing a sanitized string changes nothing, for
  every string. (As a HOL function it is pure and deterministic.)
\<close>

theorem sanitize_ip_idem: "sanitize_ip (sanitize_ip s) = sanitize_ip s"
proof (cases "length (split_dot s) = 4")
  case True
  have p0: "CHR ''.'' \<notin> set (split_dot s ! 0)" and p1: "CHR ''.'' \<notin> set (split_dot s ! 1)"
    using True by (auto intro!: split_dot_parts [of _ s] nth_mem)
  have "sanitize_ip s = split_dot s ! 0 @ ''.'' @ split_dot s ! 1 @ ''.'' @ ''XXX'' @ ''.'' @ ''XXX''"
    using True by (simp add: sanitize_ip_def Let_def)
  moreover have "sanitize_ip (split_dot s ! 0 @ ''.'' @ split_dot s ! 1 @ ''.'' @ ''XXX'' @ ''.'' @ ''XXX'')
      = split_dot s ! 0 @ ''.'' @ split_dot s ! 1 @ ''.XXX.XXX''"
    by (rule sanitize_ip_quad) (use p0 p1 in auto)
  ultimately show ?thesis using True by (simp add: sanitize_ip_def Let_def)
next
  case False
  have "sanitize_ip s = ''XXX'' @ ''.'' @ ''XXX'' @ ''.'' @ ''XXX'' @ ''.'' @ ''XXX''"
    using False by (simp add: sanitize_ip_def)
  moreover have "sanitize_ip (''XXX'' @ ''.'' @ ''XXX'' @ ''.'' @ ''XXX'' @ ''.'' @ ''XXX'') = ''XXX'' @ ''.'' @ ''XXX'' @ ''.XXX.XXX''"
    by (rule sanitize_ip_quad) auto
  ultimately show ?thesis by simp
qed


subsection \<open>The matcher on patterns whose quantifiers never give back\<close>

lemma rmatch_alts_first:
  assumes "\<And>p xs. \<not> first_ok r x \<Longrightarrow> rmatch r p (x # xs) = None"
  shows "\<not> first_ok (Alts ls # r) x \<Longrightarrow> rmatch (Alts ls # r) p (x # xs) = None"
proof (induction ls)
  case Nil
  then show ?case by simp
next
  case (Cons l ls)
  then show ?case using assms by (cases l) (auto split: option.splits)
qed

lemma rmatch_first: "\<not> first_ok r x \<Longrightarrow> rmatch r p (x # xs) = None"
proof (induction r arbitrary: p xs)
  case Nil
  then show ?case by simp
next
  case (Cons i r)
  show ?case
  proof (cases i)
    case (Alts ls)
    then show ?thesis using Cons by (auto intro!: rmatch_alts_first)
  next
    case (Lit l)
    then show ?thesis using Cons by (cases l) auto
  next
    case (Rep c n)
    then show ?thesis using Cons by (cases "n = 0") auto
  qed (use Cons in \<open>auto split: option.splits list.splits\<close>)
qed

lemma star_det:
  assumes "\<And>x. in_class c x \<Longrightarrow> \<not> first_ok r x"
  shows "rmatch (Star c # r) p s =
         map_option (Cons (takeWhile (in_class c) s))
           (rmatch r (p + length (takeWhile (in_class c) s)) (dropWhile (in_class c) s))"
proof (induction s arbitrary: p)
  case Nil
  then show ?case by simp
next
  case (Cons x xs)
  show ?case
  proof (cases "in_class c x")
    case True
    have "rmatch r p (x # xs) = None"
      using assms True by (simp add: rmatch_first)
    then show ?thesis
      using True Cons [of "Suc p"] by (auto split: option.splits list.splits)
  next
    case False
    then show ?thesis by simp
  qed
qed

lemma plus_det:
  assumes "\<And>x. in_class c x \<Longrightarrow> \<not> first_ok r x"
  shows "rmatch (Plus c # r) p s =
         (if takeWhile (in_class c) s = [] then None
          else map_option (Cons (takeWhile (in_class c) s))
           (rmatch r (p + length (takeWhile (in_class c) s)) (dropWhile (in_class c) s)))"
proof (cases s)
  case Nil
  then show ?thesis by simp
next
  case (Cons x xs)
  then show ?thesis
    using star_det [where p = "Suc p" and s = xs and c = c and r = r, OF assms]
    by (auto split: option.splits list.splits)
qed

lemma rep_det:
  "rmatch (Rep c n # r) p s =
     (if n \<le> length s \<and> list_all (in_class c) (take n s)
      then map_option (Cons (take n s)) (rmatch r (p + n) (drop n s)) else None)"
proof (induction n arbitrary: p s)
  case 0
  then show ?case by (cases s) auto
next
  case (Suc n)
  show ?case
  proof (cases s)
    case Nil
    then show ?thesis by simp
  next
    case (Cons x xs)
    then show ?thesis
      using Suc [of "Suc p" xs] by (auto split: option.splits list.splits)
  qed
qed

lemma map_option_seg:
  "(case seg a d of None \<Rightarrow> None | Some (segs, q, rest) \<Rightarrow> map_option ((@) segs) (f q rest)) =
   map_option (Cons a) (case d of None \<Rightarrow> None | Some (segs, q, rest) \<Rightarrow> map_option ((@) segs) (f q rest))"
proof (cases d)
  case None
  then show ?thesis by simp
next
  case (Some v)
  obtain segs q rest where v: "v = (segs, q, rest)" by (cases v)
  show ?thesis using Some v by (cases "f q rest") auto
qed

lemma rmatch_det_prefix:
  "det_ok pre t \<Longrightarrow>
   rmatch (pre @ t) p s =
     (case dmatch pre p s of
        None \<Rightarrow> None
      | Some (segs, q, rest) \<Rightarrow> map_option ((@) segs) (rmatch t q rest))"
proof (induction pre arbitrary: p s)
  case Nil
  then show ?case by (cases "rmatch t p s") auto
next
  case (Cons i pre)
  show ?case
  proof (cases i)
    case (Plus c)
    then show ?thesis
      using Cons by (simp add: plus_det map_option_seg)
  next
    case (Star c)
    then show ?thesis
      using Cons by (simp add: star_det map_option_seg)
  next
    case (Rep c n)
    then show ?thesis
      using Cons by (simp add: rep_det map_option_seg del: rmatch.simps)
  qed (use Cons in \<open>auto simp: map_option_seg\<close>)
qed


subsection \<open>The timestamp fields of a line\<close>

lemmas regex_defs =
  command_regex_def user_regex_def sudo_command_regex_def sudo_failure_regex_def
  hydra_attack_regex_def

lemma space_not_digit: "is_space x \<Longrightarrow> \<not> is_digit x"
  by (auto simp: is_space_def is_digit_def)

lemma space_not_s: "is_space x \<Longrightarrow> x \<noteq> CHR ''s''"
  by (auto simp: is_space_def)

lemma space_not_letters:
  "is_space x \<Longrightarrow> x \<noteq> CHR ''u'' \<and> x \<noteq> CHR ''p''"
  by (auto simp: is_space_def)

lemma pattern_split: "R \<in> five_patterns \<Longrightarrow> R = ts_prefix @ drop 19 R"
  by (auto simp: five_patterns_def regex_defs ts_prefix_def)

lemma pattern_det: "R \<in> five_patterns \<Longrightarrow> det_ok ts_prefix (drop 19 R)"
  by (auto simp: five_patterns_def regex_defs ts_prefix_def space_not_digit space_not_s
      space_not_letters)

lemma dmatch_ts_prefix_segs:
  "dmatch ts_prefix 0 s = Some (segs, q, rest) \<Longrightarrow>
   \<exists>a b c d1 d2 d3 e f g. segs = [[], [], a, [], b, [], c, [], d1, [], d2, '':'', d3, '':'', e, [], f, ''server'', g]"
  unfolding ts_prefix_def
  by (auto split: if_splits simp: Let_def elim!: seg.elims)


lemma match_prefix_eq:
  assumes "R \<in> five_patterns"
  shows "rmatch R 0 s =
     (case dmatch ts_prefix 0 s of
        None \<Rightarrow> None
      | Some (segs, q, rest) \<Rightarrow> map_option ((@) segs) (rmatch (drop 19 R) q rest))"
proof -
  have "rmatch (ts_prefix @ drop 19 R) 0 s =
     (case dmatch ts_prefix 0 s of
        None \<Rightarrow> None
      | Some (segs, q, rest) \<Rightarrow> map_option ((@) segs) (rmatch (drop 19 R) q rest))"
    by (rule rmatch_det_prefix [OF pattern_det [OF assms]])
  then show ?thesis
    using pattern_split [OF assms, symmetric] by simp
qed

lemma match_prefix:
  assumes "R \<in> five_patterns" "rmatch R 0 s = Some all"
  shows "\<exists>segs q rest tsegs. dmatch ts_prefix 0 s = Some (segs, q, rest) \<and>
           rmatch (drop 19 R) q rest = Some tsegs \<and> all = segs @ tsegs"
proof (cases "dmatch ts_prefix 0 s")
  case None
  then show ?thesis using assms(2) match_prefix_eq [OF assms(1), of s] by simp
next
  case (Some v)
  obtain segs q rest where v: "v = (segs, q, rest)" by (cases v)
  have "map_option ((@) segs) (rmatch (drop 19 R) q rest) = Some all"
    using assms(2) match_prefix_eq [OF assms(1), of s] Some v by simp
  then obtain tsegs where "rmatch (drop 19 R) q rest = Some tsegs" "all = segs @ tsegs"
    by auto
  then show ?thesis using Some v by blast
qed

lemma match_tail:
  assumes "R \<in> five_patterns" "dmatch ts_prefix 0 s = Some (segs, q, rest)"
  shows "rmatch R 0 s = map_option ((@) segs) (rmatch (drop 19 R) q rest)"
  using match_prefix_eq [OF assms(1), of s] assms(2) by simp

lemma prefix_groups:
  assumes "R \<in> five_patterns" "dmatch ts_prefix 0 s = Some (segs, q, rest)"
  shows "grp 1 R (segs @ tsegs) = grp 1 ts_prefix segs"
    and "grp 2 R (segs @ tsegs) = grp 2 ts_prefix segs"
    and "grp 3 R (segs @ tsegs) = grp 3 ts_prefix segs"
proof -
  obtain a b c d1 d2 d3 e f g where
    segs: "segs = [[], [], a, [], b, [], c, [], d1, [], d2, '':'', d3, '':'', e, [], f, ''server'', g]"
    using dmatch_ts_prefix_segs [OF assms(2)] by blast
  have R: "ts_prefix @ drop 19 R = R"
    by (rule pattern_split [OF assms(1), symmetric])
  have "grp 1 (ts_prefix @ drop 19 R) (segs @ tsegs) = grp 1 ts_prefix segs"
    by (simp add: segs ts_prefix_def)
  then show "grp 1 R (segs @ tsegs) = grp 1 ts_prefix segs" using R by simp
  have "grp 2 (ts_prefix @ drop 19 R) (segs @ tsegs) = grp 2 ts_prefix segs"
    by (simp add: segs ts_prefix_def)
  then show "grp 2 R (segs @ tsegs) = grp 2 ts_prefix segs" using R by simp
  have "grp 3 (ts_prefix @ drop 19 R) (segs @ tsegs) = grp 3 ts_prefix segs"
    by (simp add: segs ts_prefix_def)
  then show "grp 3 R (segs @ tsegs) = grp 3 ts_prefix segs" using R by simp
qed

lemma fields_of_match:
  assumes "R \<in> five_patterns" "re_match R s = Some m"
  shows "ts_fields s = Some (m 1, m 2, m 3)"
proof -
  obtain all where all: "rmatch R 0 s = Some all" and m: "m = (\<lambda>n. grp n R all)"
    using assms(2) by (auto simp: re_match_def)
  obtain segs q rest tsegs where d: "dmatch ts_prefix 0 s = Some (segs, q, rest)"
    and a: "all = segs @ tsegs"
    using match_prefix [OF assms(1) all] by blast
  show ?thesis
    using prefix_groups [OF assms(1) d, of tsegs] by (simp add: ts_fields_def d m a)
qed

lemma alts_some:
  "rmatch (Alts ls # r) p s = Some all \<Longrightarrow>
   \<exists>l ts. all = l # ts \<and> l \<in> set ls \<and> take (length l) s = l \<and>
     rmatch r (p + length l) (drop (length l) s) = Some ts"
  by (induction ls) (auto split: option.splits if_splits)

lemma user_tail:
  "drop 19 user_regex =
     [Open 4, Alts [''useradd'', ''userdel'', ''passwd'', ''su'', ''sudo''], Close 4,
      Lit ''['', Open 5, Plus Digit, Close 5, Lit '']:'', Plus Space,
      Open 6, Star Dot, Close 6, Eol]"
  by (simp add: user_regex_def)

lemma user_match_shape:
  assumes "re_match user_regex s = Some m"
  shows "\<exists>segs q rest. dmatch ts_prefix 0 s = Some (segs, q, rest) \<and>
           take (length (m 4)) rest = m 4 \<and> take 1 (drop (length (m 4)) rest) = ''['' \<and>
           m 4 \<in> {''useradd'', ''userdel'', ''passwd'', ''su'', ''sudo''}"
proof -
  have U: "user_regex \<in> five_patterns" by (simp add: five_patterns_def)
  obtain all where all: "rmatch user_regex 0 s = Some all" and m: "m = (\<lambda>n. grp n user_regex all)"
    using assms by (auto simp: re_match_def)
  obtain segs q rest tsegs where d: "dmatch ts_prefix 0 s = Some (segs, q, rest)"
    and t: "rmatch (drop 19 user_regex) q rest = Some tsegs" and a: "all = segs @ tsegs"
    using match_prefix [OF U all] by blast
  obtain a1 b c d1 d2 d3 e f g where
    segs: "segs = [[], [], a1, [], b, [], c, [], d1, [], d2, '':'', d3, '':'', e, [], f, ''server'', g]"
    using dmatch_ts_prefix_segs [OF d] by blast
  obtain r' where r': "drop 19 user_regex =
      Open 4 # Alts [''useradd'', ''userdel'', ''passwd'', ''su'', ''sudo''] # Close 4 # Lit ''['' # r'"
    by (simp add: user_tail)
  from t obtain t1 where t1: "tsegs = [] # t1"
    and alt: "rmatch (Alts [''useradd'', ''userdel'', ''passwd'', ''su'', ''sudo''] # Close 4 # Lit ''['' # r') q rest = Some t1"
    unfolding r' by auto
  obtain l ts where l: "t1 = l # ts" "l \<in> set [''useradd'', ''userdel'', ''passwd'', ''su'', ''sudo'']"
      "take (length l) rest = l"
      and k: "rmatch (Close 4 # Lit ''['' # r') (q + length l) (drop (length l) rest) = Some ts"
    using alts_some [OF alt] by blast
  from k obtain ts' where ts: "ts = [] # ''['' # ts'" and br: "take 1 (drop (length l) rest) = ''[''"
    by (auto split: if_splits)
  have "m 4 = l"
    unfolding m a segs t1 l(1) ts user_regex_def by simp
  then show ?thesis using d l br by auto
qed

lemma su_excludes:
  assumes "re_match user_regex s = Some m" "m 4 = ''su''"
  shows "re_match command_regex s = None" and "re_match sudo_command_regex s = None"
    and "re_match sudo_failure_regex s = None" and "re_match hydra_attack_regex s = None"
proof -
  obtain segs q rest where d: "dmatch ts_prefix 0 s = Some (segs, q, rest)"
    and su: "take 2 rest = ''su''" and br: "take 1 (drop 2 rest) = ''[''"
    using user_match_shape [OF assms(1)] assms(2) by (auto simp: numeral_2_eq_2)
  have "take 2 rest @ take 1 (drop 2 rest) @ drop 1 (drop 2 rest) = rest"
    by (metis append_take_drop_id)
  then have "''su'' @ ''['' @ drop 1 (drop 2 rest) = rest"
    using su br by metis
  then obtain r where rest: "rest = CHR ''s'' # CHR ''u'' # CHR ''['' # r"
    by (metis append_Cons append_Nil)
  have "rmatch (drop 19 command_regex) q rest = None"
    by (simp add: command_regex_def rest)
  then have "rmatch command_regex 0 s = None"
    using match_tail [OF _ d, of command_regex] by (simp add: five_patterns_def)
  then show "re_match command_regex s = None" by (simp add: re_match_def)
  have "rmatch (drop 19 sudo_command_regex) q rest = None"
    by (simp add: sudo_command_regex_def rest)
  then have "rmatch sudo_command_regex 0 s = None"
    using match_tail [OF _ d, of sudo_command_regex] by (simp add: five_patterns_def)
  then show "re_match sudo_command_regex s = None" by (simp add: re_match_def)
  have "rmatch (drop 19 sudo_failure_regex) q rest = None"
    by (simp add: sudo_failure_regex_def rest)
  then have "rmatch sudo_failure_regex 0 s = None"
    using match_tail [OF _ d, of sudo_failure_regex] by (simp add: five_patterns_def)
  then show "re_match sudo_failure_regex s = None" by (simp add: re_match_def)
  have "rmatch (drop 19 hydra_attack_regex) q rest = None"
    by (simp add: hydra_attack_regex_def rest)
  then have "rmatch hydra_attack_regex 0 s = None"
    using match_tail [OF _ d, of hydra_attack_regex] by (simp add: five_patterns_def)
  then show "re_match hydra_attack_regex s = None" by (simp add: re_match_def)
qed

subsection \<open>The blocks of \<open>parse_line\<close>\<close>

lemmas block_defs =
  command_block_def user_block_def sudo_command_block_def sudo_failure_block_def
  hydra_block_def

lemma no_match_falls_through:
  "re_match command_regex line = None \<Longrightarrow> command_block self line = Fallthrough self"
  "re_match user_regex line = None \<Longrightarrow> user_block self line = Fallthrough self"
  "re_match sudo_command_regex line = None \<Longrightarrow> sudo_command_block self line = Fallthrough self"
  "re_match sudo_failure_regex line = None \<Longrightarrow> sudo_failure_block self line = Fallthrough self"
  "re_match hydra_attack_regex line = None \<Longrightarrow> hydra_block self line = Fallthrough self"
  by (simp_all add: block_defs)

lemma match_returns:
  "re_match command_regex line \<noteq> None \<Longrightarrow> returns (command_block self line)"
  "re_match sudo_command_regex line \<noteq> None \<Longrightarrow> returns (sudo_command_block self line)"
  "re_match sudo_failure_regex line \<noteq> None \<Longrightarrow> returns (sudo_failure_block self line)"
  by (auto simp: block_defs split: option.splits)

lemma user_match_outcome:
  assumes "re_match user_regex line = Some m"
  shows "returns (user_block self line) \<or>
         (m 4 = ''su'' \<and> user_block self line = Fallthrough (incr user_changes_update self))"
proof -
  have "m 4 \<in> {''useradd'', ''userdel'', ''passwd'', ''su'', ''sudo''}"
    using user_match_shape [OF assms] by blast
  then show ?thesis
    using assms by (auto simp: user_block_def Let_def split: option.splits)
qed

lemma returns_case:
  "returns out \<Longrightarrow>
   (case out of Return e s \<Rightarrow> (e, s) | Fallthrough s \<Rightarrow> g s) = result_of out"
  by (cases out) auto

lemma parse_line_no_match:
  assumes "re_match command_regex line = None" "re_match user_regex line = None"
    "re_match sudo_command_regex line = None" "re_match sudo_failure_regex line = None"
    "re_match hydra_attack_regex line = None"
  shows "parse_line self line = (None, self)"
  using assms by (simp add: parse_line_def no_match_falls_through)

lemma grammar_simps:
  "grammar 1 = command_regex" "grammar 2 = user_regex" "grammar 3 = sudo_command_regex"
  "grammar 4 = sudo_failure_regex" "grammar 5 = hydra_attack_regex"
  "grammar (Suc 0) = command_regex"
  by (simp_all add: grammar_def)

lemma block_simps:
  "block 1 = command_block" "block 2 = user_block" "block 3 = sudo_command_block"
  "block 4 = sudo_failure_block" "block 5 = hydra_block"
  "block (Suc 0) = command_block"
  by (simp_all add: block_def)

lemma parse_line_first_match:
  assumes "k \<in> {1..5}" "re_match (grammar k) line \<noteq> None"
    and "\<forall>j\<in>{1..<k}. re_match (grammar j) line = None"
  shows "parse_line self line = result_of (block k self line)"
proof -
  have earlier: "\<And>j. 1 \<le> j \<Longrightarrow> j < k \<Longrightarrow> re_match (grammar j) line = None"
    using assms(3) by simp
  have "k = 1 \<or> k = 2 \<or> k = 3 \<or> k = 4 \<or> k = 5"
    using assms(1) by auto
  then consider "k = 1" | "k = 2" | "k = 3" | "k = 4" | "k = 5"
    by blast
  then show ?thesis
  proof cases
    case 1
    then have "returns (command_block self line)"
      using assms(2) by (simp add: grammar_simps match_returns)
    then show ?thesis
      using 1 by (simp add: parse_line_def block_simps returns_case)
  next
    case 2
    have n1: "re_match command_regex line = None"
      using earlier [of 1] 2 by (simp add: grammar_simps)
    obtain m where m: "re_match user_regex line = Some m"
      using assms(2) 2 by (auto simp: grammar_simps)
    from user_match_outcome [OF m, of self] show ?thesis
    proof
      assume "returns (user_block self line)"
      then show ?thesis
        using 2 n1 by (simp add: parse_line_def block_simps returns_case no_match_falls_through)
    next
      assume su: "m 4 = ''su'' \<and> user_block self line = Fallthrough (incr user_changes_update self)"
      then have "m 4 = ''su''" by simp
      note ex = su_excludes [OF m this]
      show ?thesis
        using 2 n1 su ex(2-4)
        by (simp add: parse_line_def block_simps no_match_falls_through)
    qed
  next
    case 3
    have n: "re_match command_regex line = None" "re_match user_regex line = None"
      using earlier [of 1] earlier [of 2] 3 by (simp_all add: grammar_simps)
    have "returns (sudo_command_block self line)"
      using assms(2) 3 by (simp add: grammar_simps match_returns)
    then show ?thesis
      using 3 n by (simp add: parse_line_def block_simps returns_case no_match_falls_through)
  next
    case 4
    have n: "re_match command_regex line = None" "re_match user_regex line = None"
      "re_match sudo_command_regex line = None"
      using earlier [of 1] earlier [of 2] earlier [of 3] 4 by (simp_all add: grammar_simps)
    have "returns (sudo_failure_block self line)"
      using assms(2) 4 by (simp add: grammar_simps match_returns)
    then show ?thesis
      using 4 n by (simp add: parse_line_def block_simps returns_case no_match_falls_through)
  next
    case 5
    have n: "re_match command_regex line = None" "re_match user_regex line = None"
      "re_match sudo_command_regex line = None" "re_match sudo_failure_regex line = None"
      using earlier [of 1] earlier [of 2] earlier [of 3] earlier [of 4] 5
      by (simp_all add: grammar_simps)
    show ?thesis
      using 5 n
      by (cases "hydra_block self line")
        (simp_all add: parse_line_def block_simps no_match_falls_through)
  qed
qed

lemma parse_line_result:
  "parse_line self line =
     (if re_match command_regex line \<noteq> None then result_of (command_block self line)
      else if re_match user_regex line \<noteq> None then result_of (user_block self line)
      else if re_match sudo_command_regex line \<noteq> None
        then result_of (sudo_command_block self line)
      else if re_match sudo_failure_regex line \<noteq> None
        then result_of (sudo_failure_block self line)
      else result_of (hydra_block self line))"
proof -
  consider (g1) "re_match command_regex line \<noteq> None"
    | (g2) "re_match command_regex line = None" "re_match user_regex line \<noteq> None"
    | (g3) "re_match command_regex line = None" "re_match user_regex line = None"
        "re_match sudo_command_regex line \<noteq> None"
    | (g4) "re_match command_regex line = None" "re_match user_regex line = None"
        "re_match sudo_command_regex line = None" "re_match sudo_failure_regex line \<noteq> None"
    | (g5) "re_match command_regex line = None" "re_match user_regex line = None"
        "re_match sudo_command_regex line = None" "re_match sudo_failure_regex line = None"
    by blast
  then show ?thesis
  proof cases
    case g1
    have "parse_line self line = result_of (block 1 self line)"
      by (rule parse_line_first_match) (use g1 in \<open>simp_all add: grammar_simps\<close>)
    then show ?thesis using g1 by (simp add: block_simps)
  next
    case g2
    have "\<forall>j\<in>{1..<2}. re_match (grammar j) line = None"
    proof
      fix j :: nat
      assume "j \<in> {1..<2}"
      then have "j = 1" by auto
      then show "re_match (grammar j) line = None"
        using g2 by (auto simp: grammar_simps)
    qed
    then have "parse_line self line = result_of (block 2 self line)"
      by (intro parse_line_first_match) (use g2 in \<open>simp_all add: grammar_simps\<close>)
    then show ?thesis using g2 by (simp add: block_simps)
  next
    case g3
    have "\<forall>j\<in>{1..<3}. re_match (grammar j) line = None"
    proof
      fix j :: nat
      assume "j \<in> {1..<3}"
      then have "j = 1 \<or> j = 2" by auto
      then show "re_match (grammar j) line = None"
        using g3 by (auto simp: grammar_simps)
    qed
    then have "parse_line self line = result_of (block 3 self line)"
      by (intro parse_line_first_match) (use g3 in \<open>simp_all add: grammar_simps\<close>)
    then show ?thesis using g3 by (simp add: block_simps)
  next
    case g4
    have "\<forall>j\<in>{1..<4}. re_match (grammar j) line = None"
    proof
      fix j :: nat
      assume "j \<in> {1..<4}"
      then have "j = 1 \<or> j = 2 \<or> j = 3" by auto
      then show "re_match (grammar j) line = None"
        using g4 by (auto simp: grammar_simps)
    qed
    then have "parse_line self line = result_of (block 4 self line)"
      by (intro parse_line_first_match) (use g4 in \<open>simp_all add: grammar_simps\<close>)
    then show ?thesis using g4 by (simp add: block_simps)
  next
    case g5
    then show ?thesis
      by (cases "hydra_block self line")
        (simp_all add: parse_line_def no_match_falls_through)
  qed
qed

lemma incr_frame:
  "current_year (incr key self) = current_year self"
  "log_entries (incr key self) = log_entries self"
  by (simp_all add: incr_def)

lemma incr_total:
  "total_entries (stats (incr commands_update self)) = total_entries (stats self)"
  "total_entries (stats (incr user_changes_update self)) = total_entries (stats self)"
  "total_entries (stats (incr sudo_commands_update self)) = total_entries (stats self)"
  "total_entries (stats (incr failed_sudo_update self)) = total_entries (stats self)"
  "total_entries (stats (incr failed_logins_update self)) = total_entries (stats self)"
  "total_entries (stats (incr successful_logins_update self)) = total_entries (stats self)"
  "total_entries (stats (incr potential_attacks_update self)) = total_entries (stats self)"
  by (simp_all add: incr_def)

lemma command_block_frame:
  "current_year (snd (result_of (command_block self line))) = current_year self \<and>
   log_entries (snd (result_of (command_block self line))) = log_entries self \<and>
   total_entries (stats (snd (result_of (command_block self line)))) = total_entries (stats self)"
  by (simp add: command_block_def incr_frame incr_total split: option.splits)

lemma user_block_frame:
  "current_year (snd (result_of (user_block self line))) = current_year self \<and>
   log_entries (snd (result_of (user_block self line))) = log_entries self \<and>
   total_entries (stats (snd (result_of (user_block self line)))) = total_entries (stats self)"
  by (simp add: user_block_def Let_def incr_frame incr_total split: option.splits)

lemma sudo_command_block_frame:
  "current_year (snd (result_of (sudo_command_block self line))) = current_year self \<and>
   log_entries (snd (result_of (sudo_command_block self line))) = log_entries self \<and>
   total_entries (stats (snd (result_of (sudo_command_block self line)))) = total_entries (stats self)"
  by (simp add: sudo_command_block_def incr_frame incr_total split: option.splits)

lemma sudo_failure_block_frame:
  "current_year (snd (result_of (sudo_failure_block self line))) = current_year self \<and>
   log_entries (snd (result_of (sudo_failure_block self line))) = log_entries self \<and>
   total_entries (stats (snd (result_of (sudo_failure_block self line)))) = total_entries (stats self)"
  by (simp add: sudo_failure_block_def incr_frame incr_total split: option.splits)

lemma hydra_block_frame:
  "current_year (snd (result_of (hydra_block self line))) = current_year self \<and>
   log_entries (snd (result_of (hydra_block self line))) = log_entries self \<and>
   total_entries (stats (snd (result_of (hydra_block self line)))) = total_entries (stats self)"
  by (simp add: hydra_block_def Let_def incr_frame incr_total split: option.splits)

lemmas block_frame =
  command_block_frame user_block_frame sudo_command_block_frame sudo_failure_block_frame
  hydra_block_frame

lemma parse_line_frame:
  "current_year (snd (parse_line self line)) = current_year self"
  "log_entries (snd (parse_line self line)) = log_entries self"
  "total_entries (stats (snd (parse_line self line))) = total_entries (stats self)"
  using block_frame [of self line] by (simp_all add: parse_line_result)


lemma command_block_indep:
  "current_year other = current_year self \<Longrightarrow>
   fst (result_of (command_block other line)) = fst (result_of (command_block self line))"
  by (simp add: command_block_def split: option.splits)

lemma user_block_indep:
  "current_year other = current_year self \<Longrightarrow>
   fst (result_of (user_block other line)) = fst (result_of (user_block self line))"
  by (simp add: user_block_def Let_def split: option.splits)

lemma sudo_command_block_indep:
  "current_year other = current_year self \<Longrightarrow>
   fst (result_of (sudo_command_block other line)) =
   fst (result_of (sudo_command_block self line))"
  by (simp add: sudo_command_block_def split: option.splits)

lemma sudo_failure_block_indep:
  "current_year other = current_year self \<Longrightarrow>
   fst (result_of (sudo_failure_block other line)) =
   fst (result_of (sudo_failure_block self line))"
  by (simp add: sudo_failure_block_def split: option.splits)

lemma hydra_block_indep:
  "current_year other = current_year self \<Longrightarrow>
   fst (result_of (hydra_block other line)) = fst (result_of (hydra_block self line))"
  by (simp add: hydra_block_def Let_def split: option.splits)

lemma parse_line_event_indep:
  assumes "current_year other = current_year self"
  shows "fst (parse_line other line) = fst (parse_line self line)"
  using command_block_indep [OF assms, of line] user_block_indep [OF assms, of line]
    sudo_command_block_indep [OF assms, of line] sudo_failure_block_indep [OF assms, of line]
    hydra_block_indep [OF assms, of line]
  by (simp add: parse_line_result)

lemma block_bad_timestamp:
  assumes "parse_timestamp (current_year self) (m 1) (m 2) (m 3) = None"
  shows "re_match command_regex line = Some m \<Longrightarrow> result_of (command_block self line) = (None, self)"
    and "re_match user_regex line = Some m \<Longrightarrow> result_of (user_block self line) = (None, self)"
    and "re_match sudo_command_regex line = Some m \<Longrightarrow>
           result_of (sudo_command_block self line) = (None, self)"
    and "re_match sudo_failure_regex line = Some m \<Longrightarrow>
           result_of (sudo_failure_block self line) = (None, self)"
    and "re_match hydra_attack_regex line = Some m \<Longrightarrow>
           result_of (hydra_block self line) = (None, self)"
  using assms by (simp_all add: block_defs)

subsection \<open>Lines whose timestamp does not parse\<close>

lemma five_patterns_mem:
  "command_regex \<in> five_patterns" "user_regex \<in> five_patterns"
  "sudo_command_regex \<in> five_patterns" "sudo_failure_regex \<in> five_patterns"
  "hydra_attack_regex \<in> five_patterns"
  by (simp_all add: five_patterns_def)

text \<open>
  C7. When a line matches one of the five patterns and the month, day and time that the
  match captured do not parse as a date of the supplied year, \<open>parse_line\<close> returns no
  entry and leaves the object, and so every counter, as it was. (The three fields are the
  same for every pattern that matches the line, so the block that runs first fails on
  them too.) No error is raised: the failure is the value \<open>None\<close>.
\<close>

theorem malformed_timestamp_dropped:
  assumes "R \<in> five_patterns" and "re_match R line = Some m"
    and "parse_timestamp (current_year self) (m 1) (m 2) (m 3) = None"
  shows "parse_line self line = (None, self)"
proof -
  have f: "ts_fields line = Some (m 1, m 2, m 3)"
    by (rule fields_of_match [OF assms(1, 2)])
  have bad: "parse_timestamp (current_year self) (m' 1) (m' 2) (m' 3) = None"
    if "R' \<in> five_patterns" "re_match R' line = Some m'" for R' m'
    using fields_of_match [OF that] f assms(3) by simp
  have c1: "result_of (command_block self line) = (None, self)"
    if h: "re_match command_regex line \<noteq> None"
  proof -
    obtain m' where m': "re_match command_regex line = Some m'"
      using h by auto
    have "parse_timestamp (current_year self) (m' 1) (m' 2) (m' 3) = None"
      by (rule bad [OF five_patterns_mem(1) m'])
    then show ?thesis
      using m' by (simp add: command_block_def)
  qed
  have c2: "result_of (user_block self line) = (None, self)"
    if h: "re_match user_regex line \<noteq> None"
  proof -
    obtain m' where m': "re_match user_regex line = Some m'"
      using h by auto
    have "parse_timestamp (current_year self) (m' 1) (m' 2) (m' 3) = None"
      by (rule bad [OF five_patterns_mem(2) m'])
    then show ?thesis
      using m' by (simp add: user_block_def)
  qed
  have c3: "result_of (sudo_command_block self line) = (None, self)"
    if h: "re_match sudo_command_regex line \<noteq> None"
  proof -
    obtain m' where m': "re_match sudo_command_regex line = Some m'"
      using h by auto
    have "parse_timestamp (current_year self) (m' 1) (m' 2) (m' 3) = None"
      by (rule bad [OF five_patterns_mem(3) m'])
    then show ?thesis
      using m' by (simp add: sudo_command_block_def)
  qed
  have c4: "result_of (sudo_failure_block self line) = (None, self)"
    if h: "re_match sudo_failure_regex line \<noteq> None"
  proof -
    obtain m' where m': "re_match sudo_failure_regex line = Some m'"
      using h by auto
    have "parse_timestamp (current_year self) (m' 1) (m' 2) (m' 3) = None"
      by (rule bad [OF five_patterns_mem(4) m'])
    then show ?thesis
      using m' by (simp add: sudo_failure_block_def)
  qed
  have c5: "result_of (hydra_block self line) = (None, self)"
  proof (cases "re_match hydra_attack_regex line")
    case None
    then show ?thesis by (simp add: no_match_falls_through)
  next
    case (Some m')
    have "parse_timestamp (current_year self) (m' 1) (m' 2) (m' 3) = None"
      by (rule bad [OF five_patterns_mem(5) Some])
    then show ?thesis
      using Some by (simp add: hydra_block_def)
  qed
  show ?thesis
    using c1 c2 c3 c4 c5 by (simp add: parse_line_result)
qed

theorem malformed_timestamp_dropped_witness:
  "hydra_attack_regex \<in> five_patterns \<and>
   re_match hydra_attack_regex
     ''Xyz 99 10:00:00 server sshd[1234]: Failed password for admin from 203.0.113.50 port 22000 ssh2'' \<noteq> None \<and>
   parse_timestamp 2024 ''Xyz'' ''99'' ''10:00:00'' = None \<and>
   parse_line (init 2024)
     ''Xyz 99 10:00:00 server sshd[1234]: Failed password for admin from 203.0.113.50 port 22000 ssh2'' =
   (None, init 2024)"
proof -
  define L where "L = ''Xyz 99 10:00:00 server sshd[1234]: Failed password for admin from 203.0.113.50 port 22000 ssh2''"
  have a: "hydra_attack_regex \<in> five_patterns"
    by (simp add: five_patterns_def)
  have b: "re_match hydra_attack_regex L \<noteq> None"
    unfolding L_def by code_simp
  then obtain m where m: "re_match hydra_attack_regex L = Some m"
    by auto
  have g: "the (re_match hydra_attack_regex L) 1 = ''Xyz'' \<and>
           the (re_match hydra_attack_regex L) 2 = ''99'' \<and>
           the (re_match hydra_attack_regex L) 3 = ''10:00:00''"
    unfolding L_def by code_simp
  have t: "parse_timestamp 2024 ''Xyz'' ''99'' ''10:00:00'' = None"
    by code_simp
  have c: "parse_timestamp (current_year (init 2024)) (m 1) (m 2) (m 3) = None"
    using g m t by (simp add: init_def)
  show ?thesis
    using malformed_timestamp_dropped [OF a m c] a b t unfolding L_def by simp
qed

subsection \<open>Lines of the \<open>su\<close> process\<close>

text \<open>
  C4, as amended. When a line read by \<open>analyze\<close> matches the account pattern with the
  process name \<open>su\<close> and its timestamp fields parse, then it does not match the command
  pattern, \<open>parse_line\<close> increments \<open>user_changes\<close> and returns no entry, and the loop
  appends nothing: \<open>total_entries\<close>, the list of entries and the report are unchanged.
\<close>

theorem su_line_counted_without_event:
  assumes "re_match user_regex (strip l) = Some m" and "m 4 = ''su''"
    and "parse_timestamp (current_year self) (m 1) (m 2) (m 3) = Some ts"
  shows "re_match command_regex (strip l) = None \<and>
         parse_line self (strip l) = (None, incr user_changes_update self) \<and>
         analyze_line self l = incr user_changes_update self \<and>
         user_changes (stats (analyze_line self l)) = user_changes (stats self) + 1 \<and>
         total_entries (stats (analyze_line self l)) = total_entries (stats self) \<and>
         log_entries (analyze_line self l) = log_entries self \<and>
         report_entries (analyze_line self l) = report_entries self"
proof -
  note ex = su_excludes [OF assms(1, 2)]
  have u: "user_block self (strip l) = Fallthrough (incr user_changes_update self)"
    using assms by (simp add: user_block_def Let_def)
  have p: "parse_line self (strip l) = (None, incr user_changes_update self)"
    using ex(1) assms(1) u by (simp add: parse_line_result)
  then have a: "analyze_line self l = incr user_changes_update self"
    by (simp add: analyze_line_def)
  show ?thesis
    using ex(1) p a by (simp add: incr_def report_entries_def)
qed

theorem su_line_counted_without_event_witness:
  "re_match user_regex (strip ''Jan 5 10:00:00 server su[1234]: Successful su for alice by root'') \<noteq> None \<and>
   the (re_match user_regex (strip ''Jan 5 10:00:00 server su[1234]: Successful su for alice by root'')) 4 = ''su'' \<and>
   parse_timestamp 2024 ''Jan'' ''5'' ''10:00:00'' = Some (2024, 1, 5, 10, 0, 0) \<and>
   analyze_line (init 2024) ''Jan 5 10:00:00 server su[1234]: Successful su for alice by root'' =
     incr user_changes_update (init 2024) \<and>
   log_entries (analyze_line (init 2024)
     ''Jan 5 10:00:00 server su[1234]: Successful su for alice by root'') = []"
proof -
  define L where "L = ''Jan 5 10:00:00 server su[1234]: Successful su for alice by root''"
  have b: "re_match user_regex (strip L) \<noteq> None"
    unfolding L_def by code_simp
  then obtain m where m: "re_match user_regex (strip L) = Some m"
    by auto
  have g: "the (re_match user_regex (strip L)) 1 = ''Jan'' \<and>
           the (re_match user_regex (strip L)) 2 = ''5'' \<and>
           the (re_match user_regex (strip L)) 3 = ''10:00:00'' \<and>
           the (re_match user_regex (strip L)) 4 = ''su''"
    unfolding L_def by code_simp
  have t: "parse_timestamp 2024 ''Jan'' ''5'' ''10:00:00'' = Some (2024, 1, 5, 10, 0, 0)"
    by code_simp
  have su: "m 4 = ''su''"
    using g m by simp
  have c: "parse_timestamp (current_year (init 2024)) (m 1) (m 2) (m 3) = Some (2024, 1, 5, 10, 0, 0)"
    using g m t by (simp add: init_def)
  have e: "log_entries (init 2024) = []"
    by (simp add: init_def)
  note r = su_line_counted_without_event [OF m su c]
  have r3: "analyze_line (init 2024) L = incr user_changes_update (init 2024)"
    using r by blast
  have "log_entries (analyze_line (init 2024) L) = log_entries (init 2024)"
    using r by blast
  then have r6: "log_entries (analyze_line (init 2024) L) = []"
    using e by metis
  have g4: "the (re_match user_regex (strip L)) 4 = ''su''"
    using g by blast
  from b g4 t r3 r6 show ?thesis
    unfolding L_def by blast
qed

text \<open>
  C4 as stated fails on a line whose timestamp does not parse: the line below matches
  the account pattern with the process name \<open>su\<close> and does not match the command
  pattern, and \<open>user_changes\<close> is not incremented.
\<close>

theorem su_line_bad_timestamp:
  "re_match user_regex ''Feb 30 10:00:00 server su[1234]: Successful su for alice by root'' \<noteq> None \<and>
   the (re_match user_regex ''Feb 30 10:00:00 server su[1234]: Successful su for alice by root'') 4 = ''su'' \<and>
   re_match command_regex ''Feb 30 10:00:00 server su[1234]: Successful su for alice by root'' = None \<and>
   parse_line (init 2024) ''Feb 30 10:00:00 server su[1234]: Successful su for alice by root'' =
     (None, init 2024) \<and>
   user_changes (stats (snd (parse_line (init 2024)
     ''Feb 30 10:00:00 server su[1234]: Successful su for alice by root''))) = 0"
  by code_simp

subsection \<open>The first pattern that matches decides\<close>

lemma analyze_line_entries:
  "log_entries (analyze_line self l) =
     log_entries self @ (case fst (parse_line self (strip l)) of None \<Rightarrow> [] | Some e \<Rightarrow> [e])"
proof (cases "parse_line self (strip l)")
  case (Pair ev s)
  have "log_entries s = log_entries self"
    using parse_line_frame(2) [of self "strip l"] Pair by simp
  then show ?thesis
    using Pair by (cases ev) (simp_all add: analyze_line_def incr_frame)
qed


lemma command_block_cases:
  "command_block self line = Fallthrough self \<or> command_block self line = Return None self \<or>
   (\<exists>ts u c. command_block self line =
      Return (Some (ts, ''Command Log - Timestamp: '' @ str_datetime ts @ '', User: '' @ u @
                    '', Command: '' @ c @ nl)) (incr commands_update self))"
proof (cases "re_match command_regex line")
  case None
  then show ?thesis by (simp add: command_block_def)
next
  case (Some m)
  show ?thesis
  proof (cases "parse_timestamp (current_year self) (m 1) (m 2) (m 3)")
    case None
    then show ?thesis using Some by (simp add: command_block_def)
  next
    case (Some ts)
    have "command_block self line =
      Return (Some (ts, ''Command Log - Timestamp: '' @ str_datetime ts @ '', User: '' @ m 5 @
                    '', Command: '' @ m 6 @ nl)) (incr commands_update self)"
      using Some \<open>re_match command_regex line = Some m\<close> by (simp add: command_block_def)
    then show ?thesis by blast
  qed
qed

text \<open>
  C5. A line yields at most one entry, and the grammars are tried in the order 1 to 5:
  when grammar \<open>k\<close> is the first whose pattern matches the line, the result of
  \<open>parse_line\<close> (the entry, if the timestamp parses, and the counters) is that of the
  block of grammar \<open>k\<close> alone; when no pattern matches, there is no entry and nothing
  changes. In particular a line that matches the patterns of grammar 1 and of grammar 2
  is classified by grammar 1: the result is that of the command block, a command log
  entry or nothing, and \<open>user_changes\<close> is not touched. One turn of the loop of
  \<open>analyze\<close> appends at most one entry.
\<close>

theorem first_match_wins:
  "(k \<in> {1..5} \<and> re_match (grammar k) line \<noteq> None \<and>
      (\<forall>j\<in>{1..<k}. re_match (grammar j) line = None) \<longrightarrow>
        parse_line self line = result_of (block k self line)) \<and>
   ((\<forall>j\<in>{1..5}. re_match (grammar j) line = None) \<longrightarrow> parse_line self line = (None, self)) \<and>
   (re_match command_regex line \<noteq> None \<and> re_match user_regex line \<noteq> None \<longrightarrow>
      parse_line self line = result_of (command_block self line) \<and>
      user_changes (stats (snd (parse_line self line))) = user_changes (stats self) \<and>
      (fst (parse_line self line) = None \<or>
       (\<exists>ts u c. fst (parse_line self line) =
          Some (ts, ''Command Log - Timestamp: '' @ str_datetime ts @ '', User: '' @ u @
                    '', Command: '' @ c @ nl)))) \<and>
   length (log_entries (analyze_line self line)) \<le> Suc (length (log_entries self))"
proof (intro conjI impI)
  assume "k \<in> {1..5} \<and> re_match (grammar k) line \<noteq> None \<and>
      (\<forall>j\<in>{1..<k}. re_match (grammar j) line = None)"
  then show "parse_line self line = result_of (block k self line)"
    using parse_line_first_match [of k line self] by blast
next
  assume a: "\<forall>j\<in>{1..5}. re_match (grammar j) line = None"
  have "re_match (grammar 1) line = None" "re_match (grammar 2) line = None"
    "re_match (grammar 3) line = None" "re_match (grammar 4) line = None"
    "re_match (grammar 5) line = None"
    using a [rule_format, of 1] a [rule_format, of 2] a [rule_format, of 3]
      a [rule_format, of 4] a [rule_format, of 5] by simp_all
  then show "parse_line self line = (None, self)"
    by (intro parse_line_no_match) (simp_all add: grammar_simps)
next
  assume b: "re_match command_regex line \<noteq> None \<and> re_match user_regex line \<noteq> None"
  then show p: "parse_line self line = result_of (command_block self line)"
    by (simp add: parse_line_result)
  from command_block_cases [of self line]
  show "user_changes (stats (snd (parse_line self line))) = user_changes (stats self)"
    unfolding p by (elim disjE exE) (simp_all add: incr_def)
  have "fst (result_of (command_block self line)) = None \<or>
       (\<exists>ts u c. fst (result_of (command_block self line)) =
          Some (ts, ''Command Log - Timestamp: '' @ str_datetime ts @ '', User: '' @ u @
                    '', Command: '' @ c @ nl))"
    using command_block_cases [of self line]
  proof (elim disjE exE)
    fix ts u c
    assume "command_block self line =
      Return (Some (ts, ''Command Log - Timestamp: '' @ str_datetime ts @ '', User: '' @ u @
                    '', Command: '' @ c @ nl)) (incr commands_update self)"
    then have "fst (result_of (command_block self line)) =
      Some (ts, ''Command Log - Timestamp: '' @ str_datetime ts @ '', User: '' @ u @
                    '', Command: '' @ c @ nl)"
      by simp
    then show ?thesis by blast
  qed simp_all
  then show "fst (parse_line self line) = None \<or>
       (\<exists>ts u c. fst (parse_line self line) =
          Some (ts, ''Command Log - Timestamp: '' @ str_datetime ts @ '', User: '' @ u @
                    '', Command: '' @ c @ nl))"
    unfolding p .
next
  show "length (log_entries (analyze_line self line)) \<le> Suc (length (log_entries self))"
    by (simp add: analyze_line_entries split: option.splits)
qed

theorem first_match_wins_witness:
  "parse_line (init 2024)
     ''Jan 5 10:00:00 server sshd[1234]: Failed password for admin from 203.0.113.50 port 22000 ssh2'' =
   result_of (hydra_block (init 2024)
     ''Jan 5 10:00:00 server sshd[1234]: Failed password for admin from 203.0.113.50 port 22000 ssh2'') \<and>
   parse_line (init 2024) ''# a comment'' = (None, init 2024) \<and>
   re_match command_regex
     ''Jan 5 10:00:00 server sudo[1234]: alice : TTY=pts/0 ; PWD=/home/alice ; USER=root ; COMMAND=/bin/ls'' \<noteq> None \<and>
   re_match user_regex
     ''Jan 5 10:00:00 server sudo[1234]: alice : TTY=pts/0 ; PWD=/home/alice ; USER=root ; COMMAND=/bin/ls'' \<noteq> None \<and>
   parse_line (init 2024)
     ''Jan 5 10:00:00 server sudo[1234]: alice : TTY=pts/0 ; PWD=/home/alice ; USER=root ; COMMAND=/bin/ls'' =
   result_of (command_block (init 2024)
     ''Jan 5 10:00:00 server sudo[1234]: alice : TTY=pts/0 ; PWD=/home/alice ; USER=root ; COMMAND=/bin/ls'')"
proof -
  define A where "A = ''Jan 5 10:00:00 server sshd[1234]: Failed password for admin from 203.0.113.50 port 22000 ssh2''"
  define B where "B = ''# a comment''"
  define C where "C = ''Jan 5 10:00:00 server sudo[1234]: alice : TTY=pts/0 ; PWD=/home/alice ; USER=root ; COMMAND=/bin/ls''"
  have a5: "re_match (grammar 5) A \<noteq> None"
    unfolding A_def by code_simp
  have a14: "re_match (grammar 1) A = None \<and> re_match (grammar 2) A = None \<and>
             re_match (grammar 3) A = None \<and> re_match (grammar 4) A = None"
    unfolding A_def by code_simp
  have aj: "\<forall>j\<in>{1..<5}. re_match (grammar j) A = None"
  proof
    fix j :: nat
    assume "j \<in> {1..<5}"
    then have "j = 1 \<or> j = 2 \<or> j = 3 \<or> j = 4" by auto
    then show "re_match (grammar j) A = None" using a14 by auto
  qed
  have k5: "(5::nat) \<in> {1..5}" by simp
  have r1: "parse_line (init 2024) A = result_of (hydra_block (init 2024) A)"
    using first_match_wins [of 5 A "init 2024"] k5 a5 aj by (simp add: block_simps)
  have b15: "re_match (grammar 1) B = None \<and> re_match (grammar 2) B = None \<and>
             re_match (grammar 3) B = None \<and> re_match (grammar 4) B = None \<and>
             re_match (grammar 5) B = None"
    unfolding B_def by code_simp
  have bj: "\<forall>j\<in>{1..5}. re_match (grammar j) B = None"
  proof
    fix j :: nat
    assume "j \<in> {1..5}"
    then have "j = 1 \<or> j = 2 \<or> j = 3 \<or> j = 4 \<or> j = 5" by auto
    then show "re_match (grammar j) B = None" using b15 by auto
  qed
  have r2: "parse_line (init 2024) B = (None, init 2024)"
    using first_match_wins [of 1 B "init 2024"] bj by blast
  have c1: "re_match command_regex C \<noteq> None"
    unfolding C_def by code_simp
  have c2: "re_match user_regex C \<noteq> None"
    unfolding C_def by code_simp
  have r3: "parse_line (init 2024) C = result_of (command_block (init 2024) C)"
    using first_match_wins [of 1 C "init 2024"] c1 c2 by blast
  from r1 r2 c1 c2 r3 show ?thesis
    unfolding A_def B_def C_def by blast
qed

subsection \<open>The run over the lines and the sorted report\<close>

lemma analyze_line_year: "current_year (analyze_line self l) = current_year self"
proof (cases "parse_line self (strip l)")
  case (Pair ev s)
  have "current_year s = current_year self"
    using parse_line_frame(1) [of self "strip l"] Pair by simp
  then show ?thesis
    using Pair by (cases ev) (simp_all add: analyze_line_def incr_frame)
qed

lemma analyze_line_total:
  "total_entries (stats (analyze_line self l)) =
     total_entries (stats self) +
     (case fst (parse_line self (strip l)) of None \<Rightarrow> 0 | Some e \<Rightarrow> 1)"
proof (cases "parse_line self (strip l)")
  case (Pair ev s)
  have "total_entries (stats s) = total_entries (stats self)"
    using parse_line_frame(3) [of self "strip l"] Pair by simp
  then show ?thesis
    using Pair by (cases ev) (simp_all add: analyze_line_def incr_def)
qed

lemma read_lines_Cons: "read_lines self (l # ls) = read_lines (analyze_line self l) ls"
  by (simp add: read_lines_def)

lemma read_lines_entries:
  "log_entries (read_lines self lines) =
     log_entries self @
     List.map_filter (\<lambda>l. fst (parse_line (init (current_year self)) (strip l))) lines"
proof (induction lines arbitrary: self)
  case Nil
  then show ?case by (simp add: read_lines_def)
next
  case (Cons l ls)
  have y: "current_year (init (current_year self)) = current_year self"
    by (simp add: init_def)
  have e: "fst (parse_line (init (current_year self)) (strip l)) = fst (parse_line self (strip l))"
    by (rule parse_line_event_indep [OF y])
  show ?case
    unfolding read_lines_Cons Cons.IH analyze_line_year analyze_line_entries
    by (simp add: e split: option.splits)
qed

lemma read_lines_total:
  "total_entries (stats (read_lines self lines)) =
     total_entries (stats self) +
     int (length (List.map_filter
       (\<lambda>l. fst (parse_line (init (current_year self)) (strip l))) lines))"
proof (induction lines arbitrary: self)
  case Nil
  then show ?case by (simp add: read_lines_def)
next
  case (Cons l ls)
  have y: "current_year (init (current_year self)) = current_year self"
    by (simp add: init_def)
  have e: "fst (parse_line (init (current_year self)) (strip l)) = fst (parse_line self (strip l))"
    by (rule parse_line_event_indep [OF y])
  show ?case
    unfolding read_lines_Cons Cons.IH analyze_line_year analyze_line_total
    by (simp add: e split: option.splits)
qed

text \<open>
  C6. The entries that \<open>analyze\<close> leaves, and so the messages of the report, are the
  entries of the lines in input order, sorted by timestamp: the timestamps in the report
  ascend, and the entries with any one timestamp \<open>t\<close> stand in the report in the order in
  which their lines stood in the input. For the two lines of Scenario D, both at
  \<open>Feb 1 00:00:00\<close>, a command log line and then a failed login, the report lists the
  command log first.
\<close>

theorem report_sorted_stable:
  "log_entries (analyze (init y) lines) =
     sort_key fst (List.map_filter (\<lambda>l. fst (parse_line (init y) (strip l))) lines) \<and>
   sorted (map fst (log_entries (analyze (init y) lines))) \<and>
   filter (\<lambda>e. fst e = t) (log_entries (analyze (init y) lines)) =
     filter (\<lambda>e. fst e = t) (List.map_filter (\<lambda>l. fst (parse_line (init y) (strip l))) lines) \<and>
   report_entries (analyze (init y) lines) = map snd (log_entries (analyze (init y) lines)) \<and>
   report_entries (analyze (init 2024)
     [''Feb 1 00:00:00 server sudo[77]: bob : TTY=pts/1 ; PWD=/tmp ; USER=bob ; COMMAND=/usr/bin/id'',
      ''Feb 1 00:00:00 server sshd[78]: Failed password for root from 198.51.100.7 port 40000 ssh2'']) =
   [''Command Log - Timestamp: 2024-02-01 00:00:00, User: bob, Command: /usr/bin/id'' @ nl,
    ''Hydra Attack - Failed login attempt - Timestamp: 2024-02-01 00:00:00, User: root, IP: 198.51.XXX.XXX, Port: 40000'' @ nl]"
proof -
  have i: "current_year (init y) = y" "log_entries (init y) = []"
    by (simp_all add: init_def)
  have a: "log_entries (analyze (init y) lines) =
     sort_key fst (List.map_filter (\<lambda>l. fst (parse_line (init y) (strip l))) lines)"
    by (simp add: analyze_def Let_def read_lines_entries i)
  have b: "sorted (map fst (log_entries (analyze (init y) lines)))"
    unfolding a by simp
  have c: "filter (\<lambda>e. fst e = t) (log_entries (analyze (init y) lines)) =
     filter (\<lambda>e. fst e = t) (List.map_filter (\<lambda>l. fst (parse_line (init y) (strip l))) lines)"
    unfolding a by (rule sort_key_stable)
  have d: "report_entries (analyze (init y) lines) = map snd (log_entries (analyze (init y) lines))"
    by (simp add: report_entries_def)
  have e: "report_entries (analyze (init 2024)
     [''Feb 1 00:00:00 server sudo[77]: bob : TTY=pts/1 ; PWD=/tmp ; USER=bob ; COMMAND=/usr/bin/id'',
      ''Feb 1 00:00:00 server sshd[78]: Failed password for root from 198.51.100.7 port 40000 ssh2'']) =
   [''Command Log - Timestamp: 2024-02-01 00:00:00, User: bob, Command: /usr/bin/id'' @ nl,
    ''Hydra Attack - Failed login attempt - Timestamp: 2024-02-01 00:00:00, User: root, IP: 198.51.XXX.XXX, Port: 40000'' @ nl]"
    by code_simp
  from a b c d e show ?thesis by blast
qed

subsection \<open>Concrete runs\<close>

text \<open>
  C10 (Scenario A). The analysis of the single line
  \<open>Jan 5 10:00:00 server sshd[1234]: Failed password for admin from 203.0.113.50 port 22000 ssh2\<close>
  with the year 2024 yields exactly one entry; \<open>failed_logins\<close>, \<open>potential_attacks\<close> and
  \<open>total_entries\<close> are 1, every other counter is 0, and the message of the entry shows the
  address as \<open>203.0.XXX.XXX\<close>.
\<close>

theorem scenario_A:
  "analyze (init 2024)
     [''Jan 5 10:00:00 server sshd[1234]: Failed password for admin from 203.0.113.50 port 22000 ssh2''] =
   \<lparr>current_year = 2024,
    log_entries =
      [((2024, 1, 5, 10, 0, 0),
        ''Hydra Attack - Failed login attempt - Timestamp: 2024-01-05 10:00:00, User: admin, IP: 203.0.XXX.XXX, Port: 22000'' @ nl)],
    stats = \<lparr>total_entries = 1, commands = 0, user_changes = 0, sudo_commands = 0,
             failed_sudo = 0, failed_logins = 1, successful_logins = 0,
             potential_attacks = 1\<rparr>\<rparr>"
  by code_simp

text \<open>
  C1. A line of the shape of the failed sudo authentication pattern is also of the shape
  of the account pattern, which \<open>parse_line\<close> tries first: on the line below the method
  returns the sudo alert of the account block and increments \<open>user_changes\<close> and
  \<open>sudo_commands\<close>, while \<open>failed_sudo\<close> and \<open>potential_attacks\<close> stay 0.
\<close>

theorem sudo_failure_shadowed:
  "re_match sudo_failure_regex
     ''Jan 5 10:00:00 server sudo[1234]: pam_unix(sudo:auth): authentication failure; logname=alice uid=1000 euid=0 tty=/dev/pts/0 ruser=alice rhost=localhost user=alice'' \<noteq> None \<and>
   parse_line (init 2024)
     ''Jan 5 10:00:00 server sudo[1234]: pam_unix(sudo:auth): authentication failure; logname=alice uid=1000 euid=0 tty=/dev/pts/0 ruser=alice rhost=localhost user=alice'' =
   (Some ((2024, 1, 5, 10, 0, 0),
      ''ALERT!!!! sudo Command - Timestamp: 2024-01-05 10:00:00, User used sudo command: pam_unix(sudo:auth): authentication failure; logname=alice uid=1000 euid=0 tty=/dev/pts/0 ruser=alice rhost=localhost user=alice'' @ nl),
    \<lparr>current_year = 2024, log_entries = [],
     stats = \<lparr>total_entries = 0, commands = 0, user_changes = 1, sudo_commands = 1,
             failed_sudo = 0, failed_logins = 0, successful_logins = 0,
             potential_attacks = 0\<rparr>\<rparr>)"
  by code_simp

text \<open>
  C2. A line of the shape of the sudo-to-root pattern is also of the shape of the command
  pattern, which \<open>parse_line\<close> tries first: on the line below the method returns a command
  log entry and increments \<open>commands\<close>, while \<open>sudo_commands\<close> stays 0.
\<close>

theorem sudo_root_shadowed:
  "re_match sudo_command_regex
     ''Jan 5 10:00:00 server sudo[1234]: alice : TTY=pts/0 ; PWD=/home/alice ; USER=root ; COMMAND=/bin/ls'' \<noteq> None \<and>
   parse_line (init 2024)
     ''Jan 5 10:00:00 server sudo[1234]: alice : TTY=pts/0 ; PWD=/home/alice ; USER=root ; COMMAND=/bin/ls'' =
   (Some ((2024, 1, 5, 10, 0, 0),
      ''Command Log - Timestamp: 2024-01-05 10:00:00, User: alice, Command: /bin/ls'' @ nl),
    \<lparr>current_year = 2024, log_entries = [],
     stats = \<lparr>total_entries = 0, commands = 1, user_changes = 0, sudo_commands = 0,
             failed_sudo = 0, failed_logins = 0, successful_logins = 0,
             potential_attacks = 0\<rparr>\<rparr>)"
  by code_simp

end
